theory Spec2Isabelle
  imports Complex_Main
begin

section \<open>Card store (db.js)\<close>

text \<open>
  The store is one JSON document \<open>{ cards: [...] }\<close> that every operation reads whole
  and writes whole. The model is the list of card records in file order; \<open>ensure\<close>
  creates the empty list. JavaScript strings are \<open>string\<close>, JSON numbers are
  \<open>real\<close>, \<open>null\<close> and \<open>undefined\<close> are \<open>None\<close>.
\<close>

type_synonym coord = "real option"

record location =
  lat :: coord
  lon :: coord
  timestamp :: string

datatype status = Active | Frozen | Blocked

datatype risk = LOW | MEDIUM | HIGH | BLOCKED | FROZEN

text \<open>
  A history entry. \<open>/api/check\<close> writes \<open>{id, lat, lon, timestamp, risk, action}\<close>,
  \<open>/api/action\<close> writes \<open>{id, timestamp, action}\<close>: there the coordinates and the
  risk are absent.
\<close>

record event =
  ev_id :: string
  ev_lat :: coord
  ev_lon :: coord
  ev_timestamp :: string
  ev_risk :: "risk option"
  ev_action :: string

record card =
  cardNumber :: string
  lastSeen :: "location option"
  status :: status
  reported :: bool
  history :: "event list"

type_synonym db = "card list"

definition ensure :: db where
  "ensure = []"

definition default_card :: "string \<Rightarrow> card" where
  "default_card cn =
     \<lparr>cardNumber = cn, lastSeen = None, status = Active, reported = False, history = []\<rparr>"

text \<open>\<open>Array.prototype.findIndex\<close>: the first index whose element satisfies the
  predicate, \<open>None\<close> for \<open>-1\<close>.\<close>

fun findIndex :: "('a \<Rightarrow> bool) \<Rightarrow> 'a list \<Rightarrow> nat option" where
  "findIndex P [] = None"
| "findIndex P (x # xs) = (if P x then Some 0 else map_option Suc (findIndex P xs))"

definition getCard :: "string \<Rightarrow> db \<Rightarrow> card option" where
  "getCard cn d = find (\<lambda>c. cardNumber c = cn) d"

definition saveCard :: "card \<Rightarrow> db \<Rightarrow> db" where
  "saveCard c d =
     (case findIndex (\<lambda>c'. cardNumber c' = cardNumber c) d of
        None \<Rightarrow> d @ [c]
      | Some idx \<Rightarrow> d[idx := c])"

definition addHistory :: "string \<Rightarrow> event \<Rightarrow> db \<Rightarrow> db" where
  "addHistory cn entry d =
     (let c = (case getCard cn d of None \<Rightarrow> default_card cn | Some c' \<Rightarrow> c');
          h = entry # history c;
          h' = (if length h > 200 then take 200 h else h)
      in saveCard (c\<lparr>history := h'\<rparr>) d)"

definition updateLastSeen :: "string \<Rightarrow> location option \<Rightarrow> db \<Rightarrow> db" where
  "updateLastSeen cn ls d =
     (let c = (case getCard cn d of None \<Rightarrow> default_card cn | Some c' \<Rightarrow> c')
      in saveCard (c\<lparr>lastSeen := ls\<rparr>) d)"

definition getAllCards :: "db \<Rightarrow> card list" where
  "getAllCards d = d"

section \<open>JavaScript numbers, dates and strings as the handlers use them\<close>

text \<open>
  A number that the handlers compare: \<open>NaN\<close> or a value. Every comparison with
  \<open>NaN\<close> is false. The elapsed time is an integer count of milliseconds divided by
  3600000, which falls on the same side of 6 and of 24 in double precision as it does
  exactly, so the comparisons are those of the code.
\<close>

datatype jsnum = NaN | Number real

fun js_gt :: "jsnum \<Rightarrow> real \<Rightarrow> bool" where
  "js_gt NaN b = False"
| "js_gt (Number a) b = (a > b)"

fun js_lt :: "jsnum \<Rightarrow> real \<Rightarrow> bool" where
  "js_lt NaN b = False"
| "js_lt (Number a) b = (a < b)"

text \<open>
  The handler reports \<open>Number(x.toFixed(2))\<close> of the doubles it holds. That rounding
  is a parameter \<open>fixed2\<close> of the model: applied to a value, it stands for what the
  program reports for the double it holds for that value. The function below rounds an
  exact value to the nearest multiple of 1/100, the larger in size on a tie. It is the
  instance used at the sample inputs, none of which is near a tie; it is not the
  program's rounding everywhere (the double of 1.005 lies below the tie, so the program
  reports 1 where this function gives 1.01).
\<close>

fun toFixed2 :: "jsnum \<Rightarrow> jsnum" where
  "toFixed2 NaN = NaN"
| "toFixed2 (Number x) =
     Number (sgn x * real_of_int \<lfloor>\<bar>x\<bar> * 100 + 1 / 2\<rfloor> / 100)"

text \<open>
  \<open>Math.abs((new Date(now) - lastTs) / (1000 * 60 * 60))\<close>. The parameter
  \<open>parseDate\<close> is what \<open>new Date(s)\<close> reads from a string: its time value in
  milliseconds, or \<open>None\<close> for an invalid date, whose arithmetic gives \<open>NaN\<close>.
\<close>

definition diffHours_of :: "(string \<Rightarrow> int option) \<Rightarrow> string \<Rightarrow> string \<Rightarrow> jsnum" where
  "diffHours_of parseDate now lastTs =
     (case (parseDate now, parseDate lastTs) of
        (Some a, Some b) \<Rightarrow> Number \<bar>real_of_int (a - b) / (1000 * 60 * 60)\<bar>
      | _ \<Rightarrow> NaN)"

text \<open>The characters that \<open>\s\<close> matches, among the code units below 256 that a
  \<open>char\<close> holds: tab, line feed, vertical tab, form feed, carriage return, space and
  the no-break space U+00A0.\<close>

definition is_space :: "char \<Rightarrow> bool" where
  "is_space c =
     (c \<in> set [CHR 0x09, CHR 0x0A, CHR 0x0B, CHR 0x0C, CHR 0x0D, CHR '' '', CHR 0xA0])"

definition mask :: "string \<Rightarrow> string" where
  "mask pan =
     (if pan = [] then []
      else let s = filter (\<lambda>c. \<not> is_space c) pan
           in if length s \<le> 4 then ''****''
              else ''**** **** **** '' @ drop (length s - 4) s)"

text \<open>\<open>!x\<close> for a request field that is a string when present.\<close>

fun falsy :: "string option \<Rightarrow> bool" where
  "falsy None = True"
| "falsy (Some s) = (s = [])"

section \<open>The great-circle distance (utils.js)\<close>

text \<open>A coordinate in arithmetic: \<open>null\<close> reads as 0.\<close>

definition toNumber :: "coord \<Rightarrow> real" where
  "toNumber c = (case c of None \<Rightarrow> 0 | Some x \<Rightarrow> x)"

definition toRad :: "real \<Rightarrow> real" where
  "toRad v = v * pi / 180"

text \<open>
  Modelled from the spec: \<open>utils.haversineDistance\<close>, whose file is not among the
  sources. The spec gives the Haversine formula with Earth radius 6371 km in the form
  \<open>2 * R * asin(sqrt(...))\<close>. The handlers below take the distance function as a
  parameter \<open>hav\<close>; this definition is the instance used at concrete inputs.
\<close>

definition haversineDistance :: "coord \<Rightarrow> coord \<Rightarrow> coord \<Rightarrow> coord \<Rightarrow> jsnum" where
  "haversineDistance lat1 lon1 lat2 lon2 =
     (let dLat = toRad (toNumber lat2 - toNumber lat1);
          dLon = toRad (toNumber lon2 - toNumber lon1);
          a = (sin (dLat / 2))\<^sup>2
              + cos (toRad (toNumber lat1)) * cos (toRad (toNumber lat2)) * (sin (dLon / 2))\<^sup>2
      in Number (2 * 6371 * arcsin (sqrt a)))"

section \<open>POST /api/check (server.js)\<close>

record check_req =
  rq_cardNumber :: "string option"
  rq_lat :: coord
  rq_lon :: coord
  rq_ts :: "string option"

text \<open>
  What one request takes from outside the program: the outcome of the lookup at
  ipapi.co (\<open>None\<close> when the request throws or brings no data, else the
  \<open>latitude\<close> and \<open>longitude\<close> fields), the wall clock as
  \<open>new Date().toISOString()\<close>, and the identifier that \<open>nanoid()\<close> returns.
\<close>

record env =
  ipapi :: "(coord \<times> coord) option"
  clock :: string
  fresh_id :: string

record details =
  distance_km :: "jsnum option"
  hours_since_last :: "jsnum option"
  note_text :: "string option"

record card_view =
  cv_cardNumber :: string
  cv_status :: status
  cv_reported :: bool
  cv_lastSeen :: "location option"

record action_view =
  av_cardNumber :: string
  av_status :: status
  av_reported :: bool

datatype response =
    Error nat string
  | CheckOk card_view risk details
  | ActionOk string action_view
  | CardsOk "card list"

text \<open>\<open>ts || new Date().toISOString()\<close>\<close>

definition resolve_now :: "env \<Rightarrow> string option \<Rightarrow> string" where
  "resolve_now e ts = (case ts of None \<Rightarrow> clock e | Some s \<Rightarrow> if s = [] then clock e else s)"

text \<open>A number of the ipapi reply is truthy when it is present and not 0.\<close>

fun truthy_num :: "coord \<Rightarrow> bool" where
  "truthy_num None = False"
| "truthy_num (Some x) = (x \<noteq> 0)"

text \<open>Lines 30 to 45: the coordinates of the request, or both from ipapi when either
  is missing and the reply has both.\<close>

definition resolve_coords :: "env \<Rightarrow> coord \<Rightarrow> coord \<Rightarrow> coord \<times> coord" where
  "resolve_coords e la lo =
     (if la = None \<or> lo = None then
        (case ipapi e of
           None \<Rightarrow> (la, lo)
         | Some (ila, ilo) \<Rightarrow> if truthy_num ila \<and> truthy_num ilo then (ila, ilo) else (la, lo))
      else (la, lo))"

definition no_location_note :: string where
  "no_location_note = ''No previous location for this card (first time or missing).''"

text \<open>Lines 60 to 76: the risk before the status override, and the details. The
  thresholds compare the distance and the hours themselves; \<open>fixed2\<close> is the
  rounding \<open>Number(x.toFixed(2))\<close> of the two numbers that are reported.\<close>

definition compute_risk ::
  "(coord \<Rightarrow> coord \<Rightarrow> coord \<Rightarrow> coord \<Rightarrow> jsnum) \<Rightarrow> (jsnum \<Rightarrow> jsnum) \<Rightarrow>
   (string \<Rightarrow> int option) \<Rightarrow> card \<Rightarrow> coord \<Rightarrow> coord \<Rightarrow> string \<Rightarrow> risk \<times> details" where
  "compute_risk hav fixed2 parseDate c curLat curLon now =
     (case lastSeen c of
        Some ls \<Rightarrow>
          if curLat \<noteq> None \<and> curLon \<noteq> None then
            (let distKm = hav (lat ls) (lon ls) curLat curLon;
                 diffHours = diffHours_of parseDate now (timestamp ls)
             in (if js_gt distKm 500 \<and> js_lt diffHours 6 then HIGH
                 else if js_gt distKm 100 \<and> js_lt diffHours 24 then MEDIUM
                 else LOW,
                 \<lparr>distance_km = Some (fixed2 distKm),
                  hours_since_last = Some (fixed2 diffHours),
                  note_text = None\<rparr>))
          else (LOW, \<lparr>distance_km = None, hours_since_last = None,
                      note_text = Some no_location_note\<rparr>)
      | None \<Rightarrow> (LOW, \<lparr>distance_km = None, hours_since_last = None,
                         note_text = Some no_location_note\<rparr>))"

text \<open>Lines 78 to 80.\<close>

definition status_override :: "status \<Rightarrow> risk \<Rightarrow> risk" where
  "status_override s r =
     (let r1 = (if s = Blocked then BLOCKED else r)
      in if s = Frozen then FROZEN else r1)"

text \<open>
  The handler: the response and the store after it. The alert mail of a HIGH result is
  sent without being awaited and touches neither; it is left out. The \<open>catch\<close> answers
  500 when the card read back is missing.
\<close>

definition api_check ::
  "(coord \<Rightarrow> coord \<Rightarrow> coord \<Rightarrow> coord \<Rightarrow> jsnum) \<Rightarrow> (jsnum \<Rightarrow> jsnum) \<Rightarrow>
   (string \<Rightarrow> int option) \<Rightarrow> env \<Rightarrow> check_req \<Rightarrow> db \<Rightarrow> response \<times> db" where
  "api_check hav fixed2 parseDate e rq d =
     (if falsy (rq_cardNumber rq) then (Error 400 ''cardNumber is required'', d)
      else
        let cn = the (rq_cardNumber rq);
            now = resolve_now e (rq_ts rq);
            (curLat, curLon) = resolve_coords e (rq_lat rq) (rq_lon rq);
            c = (case getCard cn d of None \<Rightarrow> default_card cn | Some c' \<Rightarrow> c');
            (risk0, det) = compute_risk hav fixed2 parseDate c curLat curLon now;
            rk = status_override (status c) risk0;
            entry = \<lparr>ev_id = fresh_id e, ev_lat = curLat, ev_lon = curLon,
                     ev_timestamp = now, ev_risk = Some rk, ev_action = ''checked''\<rparr>;
            d1 = addHistory cn entry d;
            d2 = updateLastSeen cn (Some \<lparr>lat = curLat, lon = curLon, timestamp = now\<rparr>) d1
        in (case getCard cn d2 of
              None \<Rightarrow> (Error 500 ''server error'', d2)
            | Some saved \<Rightarrow>
                (CheckOk \<lparr>cv_cardNumber = mask cn, cv_status = status saved,
                          cv_reported = reported saved, cv_lastSeen = lastSeen saved\<rparr>
                   rk det, d2)))"

section \<open>POST /api/action and GET /api/cards (server.js)\<close>

record action_req =
  ar_cardNumber :: "string option"
  ar_action :: "string option"

text \<open>The \<open>switch\<close>: the card after the action and the message, \<open>None\<close> for the
  \<open>default\<close> branch.\<close>

definition apply_action :: "string \<Rightarrow> card \<Rightarrow> (card \<times> string) option" where
  "apply_action a c =
     (if a = ''continue'' then Some (c, ''Transaction allowed (no action taken).'')
      else if a = ''report'' then Some (c\<lparr>reported := True\<rparr>, ''Card reported.'')
      else if a = ''freeze'' then Some (c\<lparr>status := Frozen\<rparr>, ''Card frozen.'')
      else if a = ''block'' then Some (c\<lparr>status := Blocked\<rparr>, ''Card blocked.'')
      else None)"

definition api_action :: "env \<Rightarrow> action_req \<Rightarrow> db \<Rightarrow> response \<times> db" where
  "api_action e rq d =
     (if falsy (ar_cardNumber rq) \<or> falsy (ar_action rq)
      then (Error 400 ''cardNumber and action required'', d)
      else
        let cn = the (ar_cardNumber rq);
            a = the (ar_action rq);
            c = (case getCard cn d of None \<Rightarrow> default_card cn | Some c' \<Rightarrow> c')
        in (case apply_action a c of
              None \<Rightarrow> (Error 400 ''unknown action'', d)
            | Some (c', message) \<Rightarrow>
                let d1 = saveCard c' d;
                    d2 = addHistory cn
                           \<lparr>ev_id = fresh_id e, ev_lat = None, ev_lon = None,
                            ev_timestamp = clock e, ev_risk = None, ev_action = a\<rparr> d1
                in (ActionOk message
                      \<lparr>av_cardNumber = mask cn, av_status = status c',
                       av_reported = reported c'\<rparr>, d2)))"

definition api_cards :: "db \<Rightarrow> response" where
  "api_cards d = CardsOk (getAllCards d)"


section \<open>Reading a response and a store\<close>

text \<open>The record that every store operation and both handlers start from:
  \<open>getCard(cardNumber)\<close>, or the default record when there is none.\<close>

definition card_or_default :: "string \<Rightarrow> db \<Rightarrow> card" where
  "card_or_default cn d = (case getCard cn d of None \<Rightarrow> default_card cn | Some c \<Rightarrow> c)"

fun resp_risk :: "response \<Rightarrow> risk option" where
  "resp_risk (CheckOk cv rk det) = Some rk"
| "resp_risk _ = None"

fun resp_details :: "response \<Rightarrow> details option" where
  "resp_details (CheckOk cv rk det) = Some det"
| "resp_details _ = None"

fun resp_cards :: "response \<Rightarrow> card list" where
  "resp_cards (CardsOk cs) = cs"
| "resp_cards _ = []"

fun resp_cardNumber :: "response \<Rightarrow> string option" where
  "resp_cardNumber (CheckOk cv rk det) = Some (cv_cardNumber cv)"
| "resp_cardNumber (ActionOk msg av) = Some (av_cardNumber av)"
| "resp_cardNumber _ = None"

text \<open>The bound on a history that \<open>addHistory\<close> keeps, for every card of a store.\<close>

definition within_cap :: "db \<Rightarrow> bool" where
  "within_cap d = list_all (\<lambda>c. length (history c) \<le> 200) d"

section \<open>Sample data\<close>

definition card_a :: card where
  "card_a = \<lparr>cardNumber = ''4111111111111111'', lastSeen = None, status = Frozen,
             reported = True, history = []\<rparr>"

definition card_b :: card where
  "card_b = \<lparr>cardNumber = ''5500000000000004'', lastSeen = None, status = Active,
             reported = False, history = []\<rparr>"

definition loc_paris :: location where
  "loc_paris = \<lparr>lat = Some 48.85, lon = Some 2.35, timestamp = ''2024-01-01T00:00:00.000Z''\<rparr>"

definition ev_n :: "nat \<Rightarrow> event" where
  "ev_n n = \<lparr>ev_id = replicate n (CHR ''x''), ev_lat = None, ev_lon = None,
            ev_timestamp = ''2024-01-01T00:00:00.000Z'', ev_risk = None,
            ev_action = ''continue''\<rparr>"

definition card_full :: card where
  "card_full = \<lparr>cardNumber = ''4111111111111111'', lastSeen = None, status = Active,
                reported = False, history = map ev_n [1..<201]\<rparr>"

text \<open>The time values that \<open>new Date\<close> reads from the two ISO strings used
  below; no other string is parsed there.\<close>

definition parse_table :: "string \<Rightarrow> int option" where
  "parse_table = map_of
     [(''2024-01-01T00:00:00.000Z'', 1704067200000),
      (''2024-01-01T01:00:00.000Z'', 1704070800000)]"

definition env0 :: env where
  "env0 = \<lparr>ipapi = None, clock = ''2024-01-01T10:00:00.000Z'',
           fresh_id = ''V1StGXR8_Z5jdHi6B-myT''\<rparr>"

definition loc_origin :: location where
  "loc_origin = \<lparr>lat = Some 0, lon = Some 0, timestamp = ''2024-01-01T00:00:00.000Z''\<rparr>"

definition card_c :: card where
  "card_c = \<lparr>cardNumber = ''6011000000000004'', lastSeen = Some loc_origin,
             status = Blocked, reported = False, history = []\<rparr>"

definition check_c :: check_req where
  "check_c = \<lparr>rq_cardNumber = Some ''6011000000000004'', rq_lat = Some 10, rq_lon = Some 0,
              rq_ts = Some ''2024-01-01T01:00:00.000Z''\<rparr>"

definition check_earlier :: check_req where
  "check_earlier = \<lparr>rq_cardNumber = Some ''6011000000000004'', rq_lat = Some 20,
                    rq_lon = Some 0, rq_ts = Some ''2024-01-01T00:00:00.000Z''\<rparr>"

definition check_nowhere :: check_req where
  "check_nowhere = \<lparr>rq_cardNumber = Some ''6011000000000004'', rq_lat = None, rq_lon = None,
                    rq_ts = Some ''2024-01-01T00:00:00.000Z''\<rparr>"

section \<open>Facts about the store\<close>

lemma findIndex_None: "findIndex P xs = None \<longleftrightarrow> (\<forall>x \<in> set xs. \<not> P x)"
  by (induction xs) auto

lemma findIndex_Some:
  "findIndex P xs = Some i \<Longrightarrow> i < length xs \<and> P (xs ! i) \<and> (\<forall>j < i. \<not> P (xs ! j))"
proof (induction xs arbitrary: i)
  case Nil
  then show ?case by simp
next
  case (Cons x xs)
  show ?case
  proof (cases "P x")
    case True
    with Cons.prems show ?thesis by simp
  next
    case False
    with Cons.prems obtain k where k: "findIndex P xs = Some k" "i = Suc k"
      by auto
    from Cons.IH [OF k(1)] False k(2) show ?thesis
      by (auto simp: nth_Cons split: nat.splits)
  qed
qed

lemma find_findIndex:
  "find P xs = (case findIndex P xs of None \<Rightarrow> None | Some i \<Rightarrow> Some (xs ! i))"
  by (induction xs) (auto split: option.splits)

lemma find_update_first:
  "findIndex P xs = Some i \<Longrightarrow> P y \<Longrightarrow> find P (xs[i := y]) = Some y"
proof (induction xs arbitrary: i)
  case Nil
  then show ?case by simp
next
  case (Cons x xs)
  then show ?case by (cases "P x") auto
qed

lemma find_update_other:
  "findIndex P xs = Some i \<Longrightarrow> P y \<Longrightarrow> (\<And>z. Q z \<Longrightarrow> \<not> P z) \<Longrightarrow> find Q (xs[i := y]) = find Q xs"
proof (induction xs arbitrary: i)
  case Nil
  then show ?case by simp
next
  case (Cons x xs)
  then show ?case by (cases "P x") auto
qed

lemma find_append_split:
  "find P (xs @ ys) = (case find P xs of None \<Rightarrow> find P ys | Some x \<Rightarrow> Some x)"
  by (induction xs) auto

lemma getCard_cardNumber: "getCard cn d = Some c \<Longrightarrow> cardNumber c = cn"
  unfolding getCard_def by (induction d) (auto split: if_splits)

lemma card_or_default_cardNumber: "cardNumber (card_or_default cn d) = cn"
  by (auto simp: card_or_default_def default_card_def getCard_cardNumber split: option.splits)

lemma getCard_saveCard_same: "getCard (cardNumber c) (saveCard c d) = Some c"
proof (cases "findIndex (\<lambda>c'. cardNumber c' = cardNumber c) d")
  case None
  then have "find (\<lambda>c'. cardNumber c' = cardNumber c) d = None"
    by (simp add: find_findIndex)
  with None show ?thesis
    by (simp add: getCard_def saveCard_def find_append_split)
next
  case (Some i)
  then show ?thesis
    by (simp add: getCard_def saveCard_def find_update_first)
qed

lemma getCard_saveCard_other:
  assumes "cn \<noteq> cardNumber c"
  shows "getCard cn (saveCard c d) = getCard cn d"
proof (cases "findIndex (\<lambda>c'. cardNumber c' = cardNumber c) d")
  case None
  with assms show ?thesis
    by (simp add: getCard_def saveCard_def find_append_split split: option.splits)
next
  case (Some i)
  have "find (\<lambda>c'. cardNumber c' = cn) (d[i := c]) = find (\<lambda>c'. cardNumber c' = cn) d"
    using Some assms by (intro find_update_other [where P = "\<lambda>c'. cardNumber c' = cardNumber c"]) auto
  with Some show ?thesis
    by (simp add: getCard_def saveCard_def)
qed

lemma list_all_saveCard: "P c \<Longrightarrow> list_all P d \<Longrightarrow> list_all P (saveCard c d)"
  unfolding saveCard_def
  by (auto simp: list_all_iff split: option.splits dest!: set_update_subset_insert [THEN subsetD])

lemma cap_take: "(if length h > 200 then take 200 h else h) = take (200::nat) h"
  by simp

lemma addHistory_eq:
  "addHistory cn e d =
     saveCard ((card_or_default cn d)\<lparr>history := take 200 (e # history (card_or_default cn d))\<rparr>) d"
  unfolding addHistory_def card_or_default_def Let_def by (simp only: cap_take)

lemma updateLastSeen_eq:
  "updateLastSeen cn ls d = saveCard ((card_or_default cn d)\<lparr>lastSeen := ls\<rparr>) d"
  unfolding updateLastSeen_def card_or_default_def Let_def by simp

lemma getCard_addHistory_same:
  "getCard cn (addHistory cn e d) =
     Some ((card_or_default cn d)\<lparr>history := take 200 (e # history (card_or_default cn d))\<rparr>)"
  using getCard_saveCard_same
    [of "(card_or_default cn d)\<lparr>history := take 200 (e # history (card_or_default cn d))\<rparr>" d]
  by (simp add: addHistory_eq card_or_default_cardNumber)

lemma getCard_addHistory_other:
  "cn' \<noteq> cn \<Longrightarrow> getCard cn' (addHistory cn e d) = getCard cn' d"
  by (simp add: addHistory_eq getCard_saveCard_other card_or_default_cardNumber)

lemma getCard_updateLastSeen_same:
  "getCard cn (updateLastSeen cn ls d) = Some ((card_or_default cn d)\<lparr>lastSeen := ls\<rparr>)"
  using getCard_saveCard_same [of "(card_or_default cn d)\<lparr>lastSeen := ls\<rparr>" d]
  by (simp add: updateLastSeen_eq card_or_default_cardNumber)

lemma getCard_updateLastSeen_other:
  "cn' \<noteq> cn \<Longrightarrow> getCard cn' (updateLastSeen cn ls d) = getCard cn' d"
  by (simp add: updateLastSeen_eq getCard_saveCard_other card_or_default_cardNumber)

lemma saveCard_existing:
  assumes "getCard (cardNumber c') d = Some c"
  shows "\<exists>i < length d. d ! i = c \<and> saveCard c' d = d[i := c']"
proof -
  from assms obtain i where i: "findIndex (\<lambda>x. cardNumber x = cardNumber c') d = Some i"
    and c: "d ! i = c"
    by (auto simp: getCard_def find_findIndex split: option.splits)
  from findIndex_Some [OF i] have "i < length d" by simp
  with i c show ?thesis by (auto simp: saveCard_def)
qed

lemma getCard_in_set: "getCard cn d = Some c \<Longrightarrow> c \<in> set d"
  unfolding getCard_def by (induction d) (auto split: if_splits)

lemma within_cap_saveCard:
  "length (history c) \<le> 200 \<Longrightarrow> within_cap d \<Longrightarrow> within_cap (saveCard c d)"
  unfolding within_cap_def by (rule list_all_saveCard)

lemma within_cap_card_or_default:
  "within_cap d \<Longrightarrow> length (history (card_or_default cn d)) \<le> 200"
  by (auto simp: within_cap_def card_or_default_def default_card_def list_all_iff
      split: option.splits dest: getCard_in_set)

lemma within_cap_addHistory: "within_cap d \<Longrightarrow> within_cap (addHistory cn e d)"
  by (simp add: addHistory_eq within_cap_saveCard)

lemma within_cap_updateLastSeen: "within_cap d \<Longrightarrow> within_cap (updateLastSeen cn ls d)"
  by (simp add: updateLastSeen_eq within_cap_saveCard within_cap_card_or_default)

lemma within_cap_foldl:
  "within_cap d \<Longrightarrow> within_cap (foldl (\<lambda>d' (cn, e). addHistory cn e d') d evs)"
  by (induction evs arbitrary: d) (auto simp: within_cap_addHistory)

lemma card_or_default_addHistory:
  "card_or_default cn (addHistory cn e d) =
     (card_or_default cn d)\<lparr>history := take 200 (e # history (card_or_default cn d))\<rparr>"
  by (simp add: card_or_default_def [of cn "addHistory cn e d"] getCard_addHistory_same)

lemma take_append_take: "take n (xs @ take n ys) = take n (xs @ ys)"
  by (simp add: min_def)

lemma history_after_events:
  "length (history (card_or_default cn d)) \<le> 200 \<Longrightarrow>
   history (card_or_default cn (foldl (\<lambda>x e. addHistory cn e x) d es)) =
     take 200 (rev es @ history (card_or_default cn d))"
proof (induction es arbitrary: d)
  case Nil
  then show ?case by simp
next
  case (Cons e es)
  have "length (history (card_or_default cn (addHistory cn e d))) \<le> 200"
    by (simp add: card_or_default_addHistory)
  then have "history (card_or_default cn (foldl (\<lambda>x e. addHistory cn e x) (addHistory cn e d) es)) =
        take 200 (rev es @ take 200 (e # history (card_or_default cn d)))"
    by (simp add: Cons.IH card_or_default_addHistory)
  also have "\<dots> = take 200 (rev es @ e # history (card_or_default cn d))"
    by (rule take_append_take)
  finally show ?case by simp
qed

lemma getCard_after_events:
  "es \<noteq> [] \<Longrightarrow> getCard cn (foldl (\<lambda>x e. addHistory cn e x) d es) =
     Some (card_or_default cn (foldl (\<lambda>x e. addHistory cn e x) d es))"
proof (induction es arbitrary: d rule: rev_induct)
  case Nil
  then show ?case by simp
next
  case (snoc e es)
  show ?case
    by (simp add: getCard_addHistory_same card_or_default_addHistory)
qed

lemma take_200_evicts_last:
  "length h = 200 \<Longrightarrow> take 200 (e # h) = e # butlast h"
  by (simp add: butlast_conv_take)

lemma rev_tl_take:
  "length es = 201 \<Longrightarrow> take 200 (rev es) = rev (tl es)"
proof -
  assume l: "length es = 201"
  then obtain x xs where es: "es = x # xs" by (cases es) auto
  with l show ?thesis by simp
qed


section \<open>Facts about the handlers\<close>

lemma api_check_unfold:
  assumes cn: "rq_cardNumber rq = Some cn" "cn \<noteq> []"
    and co: "resolve_coords e (rq_lat rq) (rq_lon rq) = (la, lo)"
    and cr: "compute_risk hav fx pd (card_or_default cn d) la lo (resolve_now e (rq_ts rq)) = (r0, det)"
  shows "api_check hav fx pd e rq d =
     (CheckOk \<lparr>cv_cardNumber = mask cn, cv_status = status (card_or_default cn d),
               cv_reported = reported (card_or_default cn d),
               cv_lastSeen = Some \<lparr>lat = la, lon = lo, timestamp = resolve_now e (rq_ts rq)\<rparr>\<rparr>
        (status_override (status (card_or_default cn d)) r0) det,
      updateLastSeen cn (Some \<lparr>lat = la, lon = lo, timestamp = resolve_now e (rq_ts rq)\<rparr>)
        (addHistory cn
           \<lparr>ev_id = fresh_id e, ev_lat = la, ev_lon = lo,
            ev_timestamp = resolve_now e (rq_ts rq),
            ev_risk = Some (status_override (status (card_or_default cn d)) r0),
            ev_action = ''checked''\<rparr> d))"
proof -
  have cr': "compute_risk hav fx pd (case getCard cn d of None \<Rightarrow> default_card cn | Some c' \<Rightarrow> c')
               la lo (resolve_now e (rq_ts rq)) = (r0, det)"
    using cr by (simp add: card_or_default_def)
  show ?thesis
    unfolding api_check_def
    by (simp add: cn co cr' Let_def getCard_updateLastSeen_same card_or_default_addHistory)
      (simp add: card_or_default_def)
qed

lemma api_check_card:
  assumes cn: "rq_cardNumber rq = Some cn" "cn \<noteq> []"
    and co: "resolve_coords e (rq_lat rq) (rq_lon rq) = (la, lo)"
    and cr: "compute_risk hav fx pd (card_or_default cn d) la lo (resolve_now e (rq_ts rq)) = (r0, det)"
  shows "getCard cn (snd (api_check hav fx pd e rq d)) =
     Some ((card_or_default cn d)
       \<lparr>history := take 200
          (\<lparr>ev_id = fresh_id e, ev_lat = la, ev_lon = lo,
            ev_timestamp = resolve_now e (rq_ts rq),
            ev_risk = Some (status_override (status (card_or_default cn d)) r0),
            ev_action = ''checked''\<rparr> # history (card_or_default cn d)),
        lastSeen := Some \<lparr>lat = la, lon = lo, timestamp = resolve_now e (rq_ts rq)\<rparr>\<rparr>)"
  by (simp add: api_check_unfold [OF cn co cr] getCard_updateLastSeen_same
      card_or_default_addHistory)

lemma api_action_unfold:
  assumes cn: "ar_cardNumber rq = Some cn" "cn \<noteq> []"
    and a: "ar_action rq = Some a" "a \<noteq> []"
    and ap: "apply_action a (card_or_default cn d) = Some (c', msg)"
  shows "api_action e rq d =
     (ActionOk msg \<lparr>av_cardNumber = mask cn, av_status = status c', av_reported = reported c'\<rparr>,
      addHistory cn \<lparr>ev_id = fresh_id e, ev_lat = None, ev_lon = None,
                     ev_timestamp = clock e, ev_risk = None, ev_action = a\<rparr>
        (saveCard c' d))"
proof -
  have ap': "apply_action a (case getCard cn d of None \<Rightarrow> default_card cn | Some c' \<Rightarrow> c')
               = Some (c', msg)"
    using ap by (simp add: card_or_default_def)
  show ?thesis
    unfolding api_action_def by (simp add: cn a ap' Let_def)
qed

lemma apply_action_cardNumber:
  "apply_action a c = Some (c', msg) \<Longrightarrow> cardNumber c' = cardNumber c"
  by (auto simp: apply_action_def split: if_splits)

lemma card_or_default_saveCard:
  "cardNumber c = cn \<Longrightarrow> card_or_default cn (saveCard c d) = c"
  using getCard_saveCard_same [of c d] by (simp add: card_or_default_def)

lemma api_action_card:
  assumes cn: "ar_cardNumber rq = Some cn" "cn \<noteq> []"
    and a: "ar_action rq = Some a" "a \<noteq> []"
    and ap: "apply_action a (card_or_default cn d) = Some (c', msg)"
  shows "getCard cn (snd (api_action e rq d)) =
     Some (c'\<lparr>history := take 200
        (\<lparr>ev_id = fresh_id e, ev_lat = None, ev_lon = None,
          ev_timestamp = clock e, ev_risk = None, ev_action = a\<rparr> # history c')\<rparr>)"
proof -
  have "cardNumber c' = cn"
    using apply_action_cardNumber [OF ap] by (simp add: card_or_default_cardNumber)
  then show ?thesis
    by (simp add: api_action_unfold [OF cn a ap] getCard_addHistory_same card_or_default_saveCard)
qed

lemma diffHours_of_commute: "diffHours_of pd t1 t2 = diffHours_of pd t2 t1"
  by (auto simp: diffHours_of_def abs_minus_commute split: option.splits)


section \<open>The distance along a meridian, and the sample hour\<close>

lemma haversine_meridian:
  assumes "0 \<le> x" and "x \<le> 180"
  shows "haversineDistance (Some 0) (Some 0) (Some x) (Some 0) = Number (6371 * x * pi / 180)"
proof -
  let ?h = "x * pi / 360"
  have lo: "0 \<le> ?h" using assms by simp
  have hi: "?h \<le> pi / 2" using assms by (simp add: field_simps)
  have "0 \<le> sin ?h"
    using lo hi by (intro sin_ge_zero) (simp_all add: field_simps)
  then have root: "sqrt ((sin ?h)\<^sup>2) = sin ?h" by simp
  have "- (pi / 2) \<le> ?h"
    by (rule order_trans [OF _ lo]) simp
  then have inv: "arcsin (sin ?h) = ?h"
    using hi by (rule arcsin_sin)
  have half: "toRad x / 2 = ?h"
    by (simp add: toRad_def)
  have "haversineDistance (Some 0) (Some 0) (Some x) (Some 0)
      = Number (2 * 6371 * arcsin (sqrt ((sin ?h)\<^sup>2)))"
    by (simp add: haversineDistance_def toNumber_def Let_def half) (simp add: toRad_def)
  also have "\<dots> = Number (2 * 6371 * ?h)"
    by (simp only: root inv)
  also have "\<dots> = Number (6371 * x * pi / 180)"
    by simp
  finally show ?thesis .
qed

lemma resolve_coords_given: "resolve_coords e (Some la) (Some lo) = (Some la, Some lo)"
  by (simp add: resolve_coords_def)

lemma haversine_10: "haversineDistance (Some 0) (Some 0) (Some 10) (Some 0) = Number (6371 * pi / 18)"
  using haversine_meridian [of 10] by simp

lemma hours_sample:
  "diffHours_of parse_table ''2024-01-01T01:00:00.000Z'' ''2024-01-01T00:00:00.000Z'' = Number 1"
  by (simp add: diffHours_of_def parse_table_def)


section \<open>The handlers keep the cap\<close>

lemma apply_action_history:
  "apply_action a c = Some (c', msg) \<Longrightarrow> history c' = history c"
  by (auto simp: apply_action_def split: if_splits)

lemma within_cap_api_check:
  assumes "within_cap d"
  shows "within_cap (snd (api_check hav fx pd e rq d))"
proof (cases "falsy (rq_cardNumber rq)")
  case True
  with assms show ?thesis by (simp add: api_check_def)
next
  case False
  then obtain cn where cn: "rq_cardNumber rq = Some cn" "cn \<noteq> []"
    by (cases "rq_cardNumber rq") auto
  obtain la lo where co: "resolve_coords e (rq_lat rq) (rq_lon rq) = (la, lo)"
    by (cases "resolve_coords e (rq_lat rq) (rq_lon rq)")
  obtain r0 det where cr: "compute_risk hav fx pd (card_or_default cn d) la lo
      (resolve_now e (rq_ts rq)) = (r0, det)"
    by (cases "compute_risk hav fx pd (card_or_default cn d) la lo (resolve_now e (rq_ts rq))")
  from assms show ?thesis
    by (simp add: api_check_unfold [OF cn co cr] within_cap_addHistory within_cap_updateLastSeen)
qed

lemma within_cap_api_action:
  assumes "within_cap d"
  shows "within_cap (snd (api_action e rq d))"
proof (cases "falsy (ar_cardNumber rq) \<or> falsy (ar_action rq)")
  case True
  with assms show ?thesis by (simp add: api_action_def)
next
  case False
  then obtain cn a where cn: "ar_cardNumber rq = Some cn" "cn \<noteq> []"
    and a: "ar_action rq = Some a" "a \<noteq> []"
    by (cases "ar_cardNumber rq"; cases "ar_action rq") auto
  show ?thesis
  proof (cases "apply_action a (card_or_default cn d)")
    case None
    with False cn a assms show ?thesis
      by (simp add: api_action_def Let_def card_or_default_def)
  next
    case (Some p)
    then obtain c' msg where ap: "apply_action a (card_or_default cn d) = Some (c', msg)"
      by (cases p) auto
    have "length (history c') \<le> 200"
      using apply_action_history [OF ap] within_cap_card_or_default [OF assms, of cn] by simp
    with assms show ?thesis
      by (simp add: api_action_unfold [OF cn a ap] within_cap_addHistory within_cap_saveCard)
  qed
qed


section \<open>The card number in the responses of the two POST handlers\<close>

lemma check_response_masked:
  "resp_cardNumber (fst (api_check hav fx pd e rq d)) = None
   \<or> resp_cardNumber (fst (api_check hav fx pd e rq d)) = Some (mask (the (rq_cardNumber rq)))"
  by (simp add: api_check_def Let_def split: prod.splits option.splits)

lemma action_response_masked:
  "resp_cardNumber (fst (api_action e rq d)) = None
   \<or> resp_cardNumber (fst (api_action e rq d)) = Some (mask (the (ar_cardNumber rq)))"
  by (simp add: api_action_def Let_def split: prod.splits option.splits)

section \<open>C1: the ordered thresholds\<close>

text \<open>
  Claim C1. For a check on a stored card with a \<open>lastSeen\<close>, both current
  coordinates present, the risk before the status override is HIGH when the distance
  exceeds 500 and the elapsed hours are below 6, else MEDIUM when the distance exceeds
  100 and the hours are below 24, else LOW; for an active card that is the risk of the
  response. The elapsed hours are the absolute difference of the two time values
  divided by 3600000, the same in either order.
\<close>

theorem risk_thresholds:
  assumes cn: "rq_cardNumber rq = Some cn" "cn \<noteq> []"
    and c: "getCard cn d = Some c"
    and ls: "lastSeen c = Some ls"
    and co: "resolve_coords e (rq_lat rq) (rq_lon rq) = (Some la, Some lo)"
    and D: "D = hav (lat ls) (lon ls) (Some la) (Some lo)"
    and H: "H = diffHours_of pd (resolve_now e (rq_ts rq)) (timestamp ls)"
  shows "fst (compute_risk hav fx pd c (Some la) (Some lo) (resolve_now e (rq_ts rq)))
           = (if js_gt D 500 \<and> js_lt H 6 then HIGH
              else if js_gt D 100 \<and> js_lt H 24 then MEDIUM else LOW)
       \<and> (status c = Active \<longrightarrow>
            resp_risk (fst (api_check hav fx pd e rq d))
              = Some (if js_gt D 500 \<and> js_lt H 6 then HIGH
                      else if js_gt D 100 \<and> js_lt H 24 then MEDIUM else LOW))
       \<and> (pd (resolve_now e (rq_ts rq)) = Some t_now \<and> pd (timestamp ls) = Some t_last \<longrightarrow>
            H = Number (\<bar>real_of_int t_now - real_of_int t_last\<bar> / 3600000))
       \<and> diffHours_of pd (timestamp ls) (resolve_now e (rq_ts rq)) = H"
proof -
  from c have cd: "card_or_default cn d = c"
    by (simp add: card_or_default_def)
  obtain r0 det where cr: "compute_risk hav fx pd (card_or_default cn d) (Some la) (Some lo)
      (resolve_now e (rq_ts rq)) = (r0, det)"
    by (cases "compute_risk hav fx pd (card_or_default cn d) (Some la) (Some lo)
        (resolve_now e (rq_ts rq))")
  have r0: "r0 = (if js_gt D 500 \<and> js_lt H 6 then HIGH
              else if js_gt D 100 \<and> js_lt H 24 then MEDIUM else LOW)"
    using cr ls by (auto simp: compute_risk_def cd D H Let_def)
  have 1: "fst (compute_risk hav fx pd c (Some la) (Some lo) (resolve_now e (rq_ts rq)))
           = (if js_gt D 500 \<and> js_lt H 6 then HIGH
              else if js_gt D 100 \<and> js_lt H 24 then MEDIUM else LOW)"
    using cr r0 by (simp add: cd)
  have 2: "status c = Active \<longrightarrow>
            resp_risk (fst (api_check hav fx pd e rq d))
              = Some (if js_gt D 500 \<and> js_lt H 6 then HIGH
                      else if js_gt D 100 \<and> js_lt H 24 then MEDIUM else LOW)"
    using r0 by (simp add: api_check_unfold [OF cn co cr] cd status_override_def)
  have 3: "pd (resolve_now e (rq_ts rq)) = Some t_now \<and> pd (timestamp ls) = Some t_last \<longrightarrow>
            H = Number (\<bar>real_of_int t_now - real_of_int t_last\<bar> / 3600000)"
    by (auto simp: H diffHours_of_def)
  have 4: "diffHours_of pd (timestamp ls) (resolve_now e (rq_ts rq)) = H"
    unfolding H by (rule diffHours_of_commute)
  from 1 2 3 4 show ?thesis by blast
qed

theorem risk_thresholds_witness:
  "getCard ''6011000000000004'' [card_a, card_c\<lparr>status := Active\<rparr>]
      = Some (card_c\<lparr>status := Active\<rparr>)
   \<and> resp_risk (fst (api_check haversineDistance toFixed2 parse_table env0 check_c
         [card_a, card_c\<lparr>status := Active\<rparr>])) = Some HIGH"
proof -
  have c: "getCard ''6011000000000004'' [card_a, card_c\<lparr>status := Active\<rparr>]
      = Some (card_c\<lparr>status := Active\<rparr>)"
    by (simp add: getCard_def card_a_def card_c_def)
  have far: "(500::real) < 6371 * pi / 18"
    using pi_ge_two by simp
  note t = risk_thresholds [where rq = check_c and cn = "''6011000000000004''"
      and d = "[card_a, card_c\<lparr>status := Active\<rparr>]" and c = "card_c\<lparr>status := Active\<rparr>"
      and ls = loc_origin and e = env0 and la = 10 and lo = 0
      and hav = haversineDistance and fx = toFixed2 and pd = parse_table, OF _ _ c _ _ refl refl]
  have "resp_risk (fst (api_check haversineDistance toFixed2 parse_table env0 check_c
         [card_a, card_c\<lparr>status := Active\<rparr>])) = Some HIGH"
    using t far
    by (simp add: check_c_def card_c_def loc_origin_def resolve_coords_given resolve_now_def
        haversine_10 hours_sample)
  with c show ?thesis by simp
qed

section \<open>C2: the status override\<close>



section \<open>C3: the history is capped at 200, newest first\<close>

text \<open>
  Claim C3. No sequence of \<open>addHistory\<close> calls, on any cards, and neither
  handler, takes a store whose histories have at most 200 entries (the empty store that
  \<open>ensure\<close> creates is one) to a store with a longer history. An appended event is the head of the history and
  the first 200 entries are kept: on a history of 200 entries exactly its last, oldest
  entry goes, and after 201 events on a new card the history is the last 200 of them,
  newest first, without the first.
\<close>

theorem history_cap:
  "(within_cap d0 \<longrightarrow> within_cap (foldl (\<lambda>d' (cn, e). addHistory cn e d') d0 evs))
   \<and> (within_cap d0 \<longrightarrow> within_cap (snd (api_check hav fx pd e0 rq d0))
                        \<and> within_cap (snd (api_action e0 rq' d0)))
   \<and> within_cap ensure
   \<and> map_option history (getCard cn (addHistory cn e d))
       = Some (take 200 (e # history (card_or_default cn d)))
   \<and> (length (history (card_or_default cn d)) = 200 \<longrightarrow>
        map_option history (getCard cn (addHistory cn e d))
          = Some (e # butlast (history (card_or_default cn d))))
   \<and> (getCard cn' d' = None \<and> length es = 201 \<longrightarrow>
        map_option history (getCard cn' (foldl (\<lambda>x e. addHistory cn' e x) d' es))
          = Some (rev (tl es)))"
proof -
  have 1: "within_cap d0 \<longrightarrow> within_cap (foldl (\<lambda>d' (cn, e). addHistory cn e d') d0 evs)"
    by (simp add: within_cap_foldl)
  have 6: "within_cap d0 \<longrightarrow> within_cap (snd (api_check hav fx pd e0 rq d0))
                        \<and> within_cap (snd (api_action e0 rq' d0))"
    by (simp add: within_cap_api_check within_cap_api_action)
  have 2: "within_cap ensure"
    by (simp add: within_cap_def ensure_def)
  have 3: "map_option history (getCard cn (addHistory cn e d))
             = Some (take 200 (e # history (card_or_default cn d)))"
    by (simp add: getCard_addHistory_same)
  have 4: "length (history (card_or_default cn d)) = 200 \<longrightarrow>
        map_option history (getCard cn (addHistory cn e d))
          = Some (e # butlast (history (card_or_default cn d)))"
  proof
    assume "length (history (card_or_default cn d)) = 200"
    from take_200_evicts_last [OF this, of e] 3 show
      "map_option history (getCard cn (addHistory cn e d))
         = Some (e # butlast (history (card_or_default cn d)))"
      by (simp only:)
  qed
  have 5: "map_option history (getCard cn' (foldl (\<lambda>x e. addHistory cn' e x) d' es))
          = Some (rev (tl es))" if n: "getCard cn' d' = None" and l: "length es = 201"
  proof -
    from n have h0: "history (card_or_default cn' d') = []"
      by (simp add: card_or_default_def default_card_def)
    from l have ne: "es \<noteq> []" by auto
    have "history (card_or_default cn' (foldl (\<lambda>x e. addHistory cn' e x) d' es)) = take 200 (rev es)"
      using history_after_events [of cn' d' es] h0 by simp
    with l ne show ?thesis
      by (simp add: getCard_after_events rev_tl_take)
  qed
  from 1 2 3 4 5 6 show ?thesis by blast
qed

theorem history_cap_witness:
  "within_cap [card_full]
   \<and> within_cap (foldl (\<lambda>d' (cn, e). addHistory cn e d') [card_full]
        [(''4111111111111111'', ev_n 201), (''5500000000000004'', ev_n 1)])
   \<and> within_cap (snd (api_check haversineDistance toFixed2 parse_table env0 check_c [card_full]))
   \<and> within_cap (snd (api_action env0
        \<lparr>ar_cardNumber = Some ''4111111111111111'', ar_action = Some ''freeze''\<rparr> [card_full]))
   \<and> length (history (card_or_default ''4111111111111111'' [card_full])) = 200
   \<and> map_option history (getCard ''4111111111111111'' (addHistory ''4111111111111111'' (ev_n 201) [card_full]))
        = Some (ev_n 201 # map ev_n [1..<200])
   \<and> getCard ''5500000000000004'' [card_full] = None
   \<and> length (map ev_n [0..<201]) = 201
   \<and> map_option history (getCard ''5500000000000004''
         (foldl (\<lambda>x e. addHistory ''5500000000000004'' e x) [card_full] (map ev_n [0..<201])))
        = Some (rev (map ev_n [1..<201]))"
proof -
  have cap: "within_cap [card_full]"
    by (simp add: within_cap_def card_full_def)
  have c: "card_or_default ''4111111111111111'' [card_full] = card_full"
    by (simp add: card_or_default_def getCard_def card_full_def)
  have len: "length (history (card_or_default ''4111111111111111'' [card_full])) = 200"
    by (simp add: c) (simp add: card_full_def)
  have bl: "butlast (history card_full) = map ev_n [1..<200]"
  proof -
    have "[1..<Suc 200] = [1..<200] @ [200]"
      by (rule upt_Suc_append) simp
    then have "[1..<201] = [1..<200] @ [200::nat]"
      by simp
    then show ?thesis
      by (simp add: card_full_def del: upt_rec_numeral)
  qed
  have none: "getCard ''5500000000000004'' [card_full] = None"
    by (simp add: getCard_def card_full_def)
  have tl: "tl (map ev_n [0..<201]) = map ev_n [1..<201]"
    by (simp add: map_tl [symmetric] del: upt_Suc)
  note t = history_cap [where ?d0.0 = "[card_full]"
      and evs = "[(''4111111111111111'', ev_n 201), (''5500000000000004'', ev_n 1)]"
      and hav = haversineDistance and fx = toFixed2 and pd = parse_table and ?e0.0 = env0 and rq = check_c
      and rq' = "\<lparr>ar_cardNumber = Some ''4111111111111111'', ar_action = Some ''freeze''\<rparr>"
      and cn = "''4111111111111111''" and e = "ev_n 201" and d = "[card_full]"
      and cn' = "''5500000000000004''" and d' = "[card_full]" and es = "map ev_n [0..<201]"]
  from t cap len none show ?thesis
    by (simp add: c bl tl del: upt_Suc)
qed

section \<open>C4: an unknown action changes nothing\<close>

text \<open>
  Claim C4. A request whose action is none of continue, report, freeze, block is
  answered with an error 400; the store after it is the store before it, so no history
  has a new entry.
\<close>

theorem unknown_action_rejected:
  assumes "ar_action rq \<noteq> Some ''continue''" and "ar_action rq \<noteq> Some ''report''"
    and "ar_action rq \<noteq> Some ''freeze''" and "ar_action rq \<noteq> Some ''block''"
  shows "(\<exists>msg. fst (api_action e rq d) = Error 400 msg)
       \<and> snd (api_action e rq d) = d
       \<and> (\<forall>cn. map_option history (getCard cn (snd (api_action e rq d)))
                 = map_option history (getCard cn d))"
proof -
  have "\<exists>msg. api_action e rq d = (Error 400 msg, d)"
  proof (cases "falsy (ar_cardNumber rq) \<or> falsy (ar_action rq)")
    case True
    then show ?thesis by (simp add: api_action_def)
  next
    case False
    then obtain a where a: "ar_action rq = Some a"
      by (cases "ar_action rq") auto
    with assms have "apply_action a (case getCard (the (ar_cardNumber rq)) d of
         None \<Rightarrow> default_card (the (ar_cardNumber rq)) | Some c' \<Rightarrow> c') = None"
      by (simp add: apply_action_def)
    with False a show ?thesis
      by (simp add: api_action_def Let_def)
  qed
  then show ?thesis by auto
qed

text \<open>
  The action \<open>unblock\<close> on a store of two cards: the answer is the error
  \<open>unknown action\<close> and the store is as it was.
\<close>

theorem unknown_action_rejected_witness:
  "((\<exists>msg. fst (api_action env0
        \<lparr>ar_cardNumber = Some ''4111111111111111'', ar_action = Some ''unblock''\<rparr>
        [card_a, card_b]) = Error 400 msg)
    \<and> snd (api_action env0
        \<lparr>ar_cardNumber = Some ''4111111111111111'', ar_action = Some ''unblock''\<rparr>
        [card_a, card_b]) = [card_a, card_b]
    \<and> (\<forall>cn. map_option history (getCard cn (snd (api_action env0
          \<lparr>ar_cardNumber = Some ''4111111111111111'', ar_action = Some ''unblock''\<rparr>
          [card_a, card_b]))) = map_option history (getCard cn [card_a, card_b])))
   \<and> fst (api_action env0
        \<lparr>ar_cardNumber = Some ''4111111111111111'', ar_action = Some ''unblock''\<rparr>
        [card_a, card_b]) = Error 400 ''unknown action''"
proof (rule conjI)
  show "(\<exists>msg. fst (api_action env0
        \<lparr>ar_cardNumber = Some ''4111111111111111'', ar_action = Some ''unblock''\<rparr>
        [card_a, card_b]) = Error 400 msg)
    \<and> snd (api_action env0
        \<lparr>ar_cardNumber = Some ''4111111111111111'', ar_action = Some ''unblock''\<rparr>
        [card_a, card_b]) = [card_a, card_b]
    \<and> (\<forall>cn. map_option history (getCard cn (snd (api_action env0
          \<lparr>ar_cardNumber = Some ''4111111111111111'', ar_action = Some ''unblock''\<rparr>
          [card_a, card_b]))) = map_option history (getCard cn [card_a, card_b]))"
    by (rule unknown_action_rejected) simp_all
  show "fst (api_action env0
        \<lparr>ar_cardNumber = Some ''4111111111111111'', ar_action = Some ''unblock''\<rparr>
        [card_a, card_b]) = Error 400 ''unknown action''"
    by (simp add: api_action_def apply_action_def Let_def)
qed

section \<open>C5: no comparable prior location\<close>

text \<open>
  Claim C5. The claim asks for LOW and the note whenever the card has no
  \<open>lastSeen\<close> or a coordinate of the current or of the prior observation is unresolved.
  The guard at line 62 tests \<open>card.lastSeen\<close> and the two current coordinates only.
  From the empty store, a check without a resolved location stores a \<open>lastSeen\<close>
  whose coordinates are \<open>null\<close>; the next check of the same active card, one hour
  later at latitude 10, takes the distance branch: with \<open>null\<close> read as 0 the
  distance is that from the origin, the answer is HIGH, and the details carry
  \<open>distance_km\<close> and \<open>hours_since_last\<close> and no note.
\<close>

theorem null_prior_coordinates_scored:
  "map_option lastSeen (getCard ''6011000000000004''
        (snd (api_check haversineDistance toFixed2 parse_table env0 check_nowhere ensure)))
       = Some (Some \<lparr>lat = None, lon = None, timestamp = ''2024-01-01T00:00:00.000Z''\<rparr>)
   \<and> map_option status (getCard ''6011000000000004''
        (snd (api_check haversineDistance toFixed2 parse_table env0 check_nowhere ensure)))
       = Some Active
   \<and> resp_risk (fst (api_check haversineDistance toFixed2 parse_table env0
        check_c (snd (api_check haversineDistance toFixed2 parse_table env0 check_nowhere ensure))))
       = Some HIGH
   \<and> map_option note_text (resp_details (fst (api_check haversineDistance toFixed2 parse_table env0
        check_c (snd (api_check haversineDistance toFixed2 parse_table env0 check_nowhere ensure)))))
       = Some None
   \<and> map_option distance_km (resp_details (fst (api_check haversineDistance toFixed2 parse_table env0
        check_c (snd (api_check haversineDistance toFixed2 parse_table env0 check_nowhere ensure)))))
       = Some (Some (toFixed2 (haversineDistance None None (Some 10) (Some 0))))
   \<and> map_option hours_since_last (resp_details (fst (api_check haversineDistance toFixed2
        parse_table env0 check_c
        (snd (api_check haversineDistance toFixed2 parse_table env0 check_nowhere ensure)))))
       = Some (Some (toFixed2 (Number 1)))"
proof -
  have far: "(500::real) < 6371 * pi / 18"
    using pi_ge_two by simp
  have dist: "haversineDistance None None (Some 10) (Some 0) = Number (6371 * pi / 18)"
    using haversine_10 by (simp add: haversineDistance_def toNumber_def)
  have first: "snd (api_check haversineDistance toFixed2 parse_table env0 check_nowhere ensure)
      = [\<lparr>cardNumber = ''6011000000000004'',
          lastSeen = Some \<lparr>lat = None, lon = None, timestamp = ''2024-01-01T00:00:00.000Z''\<rparr>,
          status = Active, reported = False,
          history = [\<lparr>ev_id = ''V1StGXR8_Z5jdHi6B-myT'', ev_lat = None, ev_lon = None,
                       ev_timestamp = ''2024-01-01T00:00:00.000Z'', ev_risk = Some LOW,
                       ev_action = ''checked''\<rparr>]\<rparr>]"
    by (simp add: check_nowhere_def env0_def api_check_def Let_def resolve_coords_def
        resolve_now_def addHistory_def updateLastSeen_def saveCard_def getCard_def
        compute_risk_def status_override_def default_card_def ensure_def)
  have second: "fst (api_check haversineDistance toFixed2 parse_table env0 check_c
        (snd (api_check haversineDistance toFixed2 parse_table env0 check_nowhere ensure)))
      = CheckOk \<lparr>cv_cardNumber = mask ''6011000000000004'', cv_status = Active,
                 cv_reported = False,
                 cv_lastSeen = Some \<lparr>lat = Some 10, lon = Some 0,
                                     timestamp = ''2024-01-01T01:00:00.000Z''\<rparr>\<rparr>
          HIGH
          \<lparr>distance_km = Some (toFixed2 (haversineDistance None None (Some 10) (Some 0))),
           hours_since_last = Some (toFixed2 (Number 1)), note_text = None\<rparr>"
    unfolding first using far
    by (simp add: check_c_def env0_def api_check_def Let_def resolve_coords_def
        resolve_now_def addHistory_def updateLastSeen_def saveCard_def getCard_def
        compute_risk_def status_override_def hours_sample dist del: toFixed2.simps)
  show ?thesis
    unfolding second by (simp add: first getCard_def del: toFixed2.simps)
qed

text \<open>
  The cases of C5 that the guard does cover: with no \<open>lastSeen\<close>, or with a current
  coordinate unresolved, the risk before the status override is LOW and the details
  carry the note and neither \<open>distance_km\<close> nor \<open>hours_since_last\<close>.
\<close>

lemma guard_gives_note:
  assumes cn: "rq_cardNumber rq = Some cn" "cn \<noteq> []"
    and co: "resolve_coords e (rq_lat rq) (rq_lon rq) = (la, lo)"
    and nc: "lastSeen (card_or_default cn d) = None \<or> la = None \<or> lo = None"
  shows "fst (compute_risk hav fx pd (card_or_default cn d) la lo (resolve_now e (rq_ts rq))) = LOW
       \<and> resp_risk (fst (api_check hav fx pd e rq d))
           = Some (status_override (status (card_or_default cn d)) LOW)
       \<and> resp_details (fst (api_check hav fx pd e rq d))
           = Some \<lparr>distance_km = None, hours_since_last = None,
                   note_text = Some no_location_note\<rparr>"
proof -
  have cr: "compute_risk hav fx pd (card_or_default cn d) la lo (resolve_now e (rq_ts rq))
      = (LOW, \<lparr>distance_km = None, hours_since_last = None,
                note_text = Some no_location_note\<rparr>)"
    using nc by (auto simp: compute_risk_def split: option.splits)
  show ?thesis
    by (simp add: api_check_unfold [OF cn co cr] cr)
qed

section \<open>C6: the four actions\<close>

text \<open>
  Claim C6. A recognised action on a card (the stored record, or the default record of
  a new card) leaves the status and the reported flag as they are for continue, sets
  reported for report, sets the status to frozen for freeze and to blocked for block;
  \<open>lastSeen\<close> is untouched, and in each case one event that names the action is put
  at the head of the history, which is cut to 200.
\<close>

theorem action_effects:
  assumes cn: "ar_cardNumber rq = Some cn" "cn \<noteq> []"
    and a: "ar_action rq = Some a"
    and known: "a \<in> {''continue'', ''report'', ''freeze'', ''block''}"
  shows "getCard cn (snd (api_action e rq d)) =
     Some ((card_or_default cn d)
       \<lparr>status := (if a = ''freeze'' then Frozen else if a = ''block'' then Blocked
                    else status (card_or_default cn d)),
        reported := (if a = ''report'' then True else reported (card_or_default cn d)),
        history := take 200
          (\<lparr>ev_id = fresh_id e, ev_lat = None, ev_lon = None, ev_timestamp = clock e,
            ev_risk = None, ev_action = a\<rparr> # history (card_or_default cn d))\<rparr>)"
proof -
  from known consider "a = ''continue''" | "a = ''report''" | "a = ''freeze''" | "a = ''block''"
    by blast
  then show ?thesis
  proof cases
    case 1
    have ap: "apply_action a (card_or_default cn d)
        = Some (card_or_default cn d, ''Transaction allowed (no action taken).'')"
      by (simp add: 1 apply_action_def)
    show ?thesis
      using api_action_card [OF cn a _ ap, of e] by (simp add: 1)
  next
    case 2
    have ap: "apply_action a (card_or_default cn d)
        = Some ((card_or_default cn d)\<lparr>reported := True\<rparr>, ''Card reported.'')"
      by (simp add: 2 apply_action_def)
    show ?thesis
      using api_action_card [OF cn a _ ap, of e] by (simp add: 2)
  next
    case 3
    have ap: "apply_action a (card_or_default cn d)
        = Some ((card_or_default cn d)\<lparr>status := Frozen\<rparr>, ''Card frozen.'')"
      by (simp add: 3 apply_action_def)
    show ?thesis
      using api_action_card [OF cn a _ ap, of e] by (simp add: 3)
  next
    case 4
    have ap: "apply_action a (card_or_default cn d)
        = Some ((card_or_default cn d)\<lparr>status := Blocked\<rparr>, ''Card blocked.'')"
      by (simp add: 4 apply_action_def)
    show ?thesis
      using api_action_card [OF cn a _ ap, of e] by (simp add: 4)
  qed
qed

text \<open>
  The action \<open>report\<close> on the second card of a store of two.
\<close>

theorem action_effects_witness:
  "''report'' \<in> {''continue'', ''report'', ''freeze'', ''block''}
   \<and> getCard ''5500000000000004'' (snd (api_action env0
        \<lparr>ar_cardNumber = Some ''5500000000000004'', ar_action = Some ''report''\<rparr>
        [card_a, card_b]))
     = Some (card_b\<lparr>reported := True,
              history := [\<lparr>ev_id = ''V1StGXR8_Z5jdHi6B-myT'', ev_lat = None, ev_lon = None,
                           ev_timestamp = ''2024-01-01T10:00:00.000Z'', ev_risk = None,
                           ev_action = ''report''\<rparr>]\<rparr>)"
proof -
  have c: "card_or_default ''5500000000000004'' [card_a, card_b] = card_b"
    by (simp add: card_or_default_def getCard_def card_a_def card_b_def)
  note t = action_effects [where rq = "\<lparr>ar_cardNumber = Some ''5500000000000004'',
        ar_action = Some ''report''\<rparr>" and cn = "''5500000000000004''" and a = "''report''"
      and e = env0 and d = "[card_a, card_b]"]
  from t show ?thesis
    by (simp add: c) (simp add: card_b_def env0_def)
qed

section \<open>C7: every check replaces lastSeen\<close>

text \<open>
  Claim C7, amended. After every check that carries a card number, the card's
  \<open>lastSeen\<close> is the observation of that check: its resolved coordinates and its
  timestamp, whatever timestamp was stored before. No timestamps are compared.
\<close>

theorem check_overwrites_lastSeen:
  assumes cn: "rq_cardNumber rq = Some cn" "cn \<noteq> []"
    and co: "resolve_coords e (rq_lat rq) (rq_lon rq) = (la, lo)"
  shows "map_option lastSeen (getCard cn (snd (api_check hav fx pd e rq d)))
           = Some (Some \<lparr>lat = la, lon = lo, timestamp = resolve_now e (rq_ts rq)\<rparr>)"
proof -
  obtain r0 det where cr: "compute_risk hav fx pd (card_or_default cn d) la lo
      (resolve_now e (rq_ts rq)) = (r0, det)"
    by (cases "compute_risk hav fx pd (card_or_default cn d) la lo (resolve_now e (rq_ts rq))")
  show ?thesis
    by (simp add: api_check_card [OF cn co cr])
qed

text \<open>
  A check of 01:00 on a card last seen at 00:00.
\<close>

theorem check_overwrites_lastSeen_witness:
  "map_option lastSeen (getCard ''6011000000000004''
      (snd (api_check haversineDistance toFixed2 parse_table env0 check_c [card_a, card_c])))
     = Some (Some \<lparr>lat = Some 10, lon = Some 0, timestamp = ''2024-01-01T01:00:00.000Z''\<rparr>)"
  using check_overwrites_lastSeen [where rq = check_c and cn = "''6011000000000004''"
      and e = env0 and la = "Some 10" and lo = "Some 0" and hav = haversineDistance
      and fx = toFixed2 and pd = parse_table and d = "[card_a, card_c]"]
  by (simp add: check_c_def resolve_coords_given resolve_now_def)

text \<open>
  Against C7 as it is written. From the empty store, a check of 01:00 sets
  \<open>lastSeen\<close>; a second check of 00:00 the same day, which is not newer, replaces it
  all the same.
\<close>

theorem lastSeen_replaced_by_older_check:
  "parse_table ''2024-01-01T01:00:00.000Z'' = Some 1704070800000
   \<and> parse_table ''2024-01-01T00:00:00.000Z'' = Some 1704067200000
   \<and> \<not> ((1704070800000::int) < 1704067200000)
   \<and> map_option lastSeen (getCard ''6011000000000004''
        (snd (api_check haversineDistance toFixed2 parse_table env0 check_c ensure)))
       = Some (Some \<lparr>lat = Some 10, lon = Some 0, timestamp = ''2024-01-01T01:00:00.000Z''\<rparr>)
   \<and> map_option lastSeen (getCard ''6011000000000004''
        (snd (api_check haversineDistance toFixed2 parse_table env0 check_earlier
           (snd (api_check haversineDistance toFixed2 parse_table env0 check_c ensure)))))
       = Some (Some \<lparr>lat = Some 20, lon = Some 0, timestamp = ''2024-01-01T00:00:00.000Z''\<rparr>)"
  by (simp add: parse_table_def check_c_def check_earlier_def env0_def api_check_def api_action_def apply_action_def Let_def resolve_coords_def
      resolve_now_def addHistory_def updateLastSeen_def saveCard_def getCard_def
      compute_risk_def status_override_def default_card_def ensure_def
      del: toFixed2.simps)

section \<open>C8: the card listing returns the stored numbers\<close>

text \<open>
  Claim C8. The responses of \<open>/api/check\<close> and \<open>/api/action\<close> carry
  \<open>mask(cardNumber)\<close>, but \<open>/api/cards\<close> answers with the stored records as they
  are: after one check on the card 6011000000000004 the listing shows that number in
  full, while the response of the check itself showed its masked form.
\<close>

theorem api_cards_unmasked:
  "map cardNumber (resp_cards (api_cards
       (snd (api_check haversineDistance toFixed2 parse_table env0 check_c ensure))))
     = [''6011000000000004'']
   \<and> resp_cardNumber (fst (api_check haversineDistance toFixed2 parse_table env0 check_c ensure))
     = Some ''**** **** **** 0004''
   \<and> mask ''6011000000000004'' = ''**** **** **** 0004''"
  by (simp add: api_cards_def getAllCards_def check_c_def env0_def mask_def is_space_def
      api_check_def api_action_def apply_action_def Let_def resolve_coords_def
      resolve_now_def addHistory_def updateLastSeen_def saveCard_def getCard_def
      compute_risk_def status_override_def default_card_def ensure_def del: toFixed2.simps)

section \<open>C9: a check on a blocked or frozen card still writes\<close>

text \<open>
  Claim C9. A check on a blocked or frozen card answers with the overridden risk and
  changes the stored card as any check does: a \<open>checked\<close> event with that risk is put
  at the head of the history, and \<open>lastSeen\<close> becomes the new observation.
\<close>

theorem check_on_blocked_or_frozen_mutates:
  assumes cn: "rq_cardNumber rq = Some cn" "cn \<noteq> []"
    and c: "getCard cn d = Some c"
    and st: "status c = Blocked \<or> status c = Frozen"
    and co: "resolve_coords e (rq_lat rq) (rq_lon rq) = (la, lo)"
  shows "resp_risk (fst (api_check hav fx pd e rq d))
           = Some (if status c = Blocked then BLOCKED else FROZEN)
       \<and> getCard cn (snd (api_check hav fx pd e rq d)) =
           Some (c\<lparr>history := take 200
                     (\<lparr>ev_id = fresh_id e, ev_lat = la, ev_lon = lo,
                       ev_timestamp = resolve_now e (rq_ts rq),
                       ev_risk = Some (if status c = Blocked then BLOCKED else FROZEN),
                       ev_action = ''checked''\<rparr> # history c),
                   lastSeen := Some \<lparr>lat = la, lon = lo,
                                     timestamp = resolve_now e (rq_ts rq)\<rparr>\<rparr>)"
proof -
  from c have cd: "card_or_default cn d = c"
    by (simp add: card_or_default_def)
  obtain r0 det where cr: "compute_risk hav fx pd (card_or_default cn d) la lo
      (resolve_now e (rq_ts rq)) = (r0, det)"
    by (cases "compute_risk hav fx pd (card_or_default cn d) la lo (resolve_now e (rq_ts rq))")
  from st have ov: "status_override (status c) r0 = (if status c = Blocked then BLOCKED else FROZEN)"
    by (auto simp: status_override_def)
  show ?thesis
    using api_check_card [OF cn co cr] ov
    by (simp add: api_check_unfold [OF cn co cr] cd)
qed

text \<open>
  A check on a blocked card that was last seen at the origin: the answer is BLOCKED,
  the event is recorded with that risk and \<open>lastSeen\<close> moves to the new place.
\<close>

theorem check_on_blocked_or_frozen_mutates_witness:
  "getCard ''6011000000000004'' [card_a, card_c] = Some card_c
   \<and> status card_c = Blocked
   \<and> resp_risk (fst (api_check haversineDistance toFixed2 parse_table env0 check_c [card_a, card_c]))
       = Some BLOCKED
   \<and> getCard ''6011000000000004''
        (snd (api_check haversineDistance toFixed2 parse_table env0 check_c [card_a, card_c]))
       = Some (card_c
           \<lparr>history := [\<lparr>ev_id = ''V1StGXR8_Z5jdHi6B-myT'', ev_lat = Some 10, ev_lon = Some 0,
                         ev_timestamp = ''2024-01-01T01:00:00.000Z'', ev_risk = Some BLOCKED,
                         ev_action = ''checked''\<rparr>],
            lastSeen := Some \<lparr>lat = Some 10, lon = Some 0,
                              timestamp = ''2024-01-01T01:00:00.000Z''\<rparr>\<rparr>)"
proof -
  have c: "getCard ''6011000000000004'' [card_a, card_c] = Some card_c"
    by (simp add: getCard_def card_a_def card_c_def)
  have st: "status card_c = Blocked"
    by (simp add: card_c_def)
  note t = check_on_blocked_or_frozen_mutates [where rq = check_c
      and cn = "''6011000000000004''" and d = "[card_a, card_c]" and c = card_c
      and e = env0 and la = "Some 10" and lo = "Some 0"
      and hav = haversineDistance and fx = toFixed2 and pd = parse_table, OF _ _ c]
  from t c st show ?thesis
    by (simp add: check_c_def resolve_coords_given resolve_now_def env0_def)
      (simp add: card_c_def)
qed

section \<open>C10: what updateLastSeen leaves alone\<close>

text \<open>
  Claim C10. For a card that is in the store, \<open>updateLastSeen\<close> replaces one entry of
  the collection, the first with that card number, by the same record with only
  \<open>lastSeen\<close> changed: its status, reported flag and history are as before, and so is
  the record found for every other card number.
\<close>

theorem updateLastSeen_frame:
  assumes "getCard cn d = Some c"
  shows "(\<exists>i < length d. d ! i = c \<and> updateLastSeen cn ls d = d[i := c\<lparr>lastSeen := ls\<rparr>])
       \<and> getCard cn (updateLastSeen cn ls d) = Some (c\<lparr>lastSeen := ls\<rparr>)
       \<and> status (c\<lparr>lastSeen := ls\<rparr>) = status c
       \<and> reported (c\<lparr>lastSeen := ls\<rparr>) = reported c
       \<and> history (c\<lparr>lastSeen := ls\<rparr>) = history c
       \<and> (\<forall>cn'. cn' \<noteq> cn \<longrightarrow> getCard cn' (updateLastSeen cn ls d) = getCard cn' d)"
proof -
  from assms have cd: "card_or_default cn d = c"
    by (simp add: card_or_default_def)
  from assms have cn: "cardNumber c = cn"
    by (rule getCard_cardNumber)
  have "getCard (cardNumber (c\<lparr>lastSeen := ls\<rparr>)) d = Some c"
    using assms cn by simp
  from saveCard_existing [OF this]
  have "\<exists>i < length d. d ! i = c \<and> updateLastSeen cn ls d = d[i := c\<lparr>lastSeen := ls\<rparr>]"
    by (simp add: updateLastSeen_eq cd)
  moreover have "getCard cn (updateLastSeen cn ls d) = Some (c\<lparr>lastSeen := ls\<rparr>)"
    by (simp add: getCard_updateLastSeen_same cd)
  moreover have "\<forall>cn'. cn' \<noteq> cn \<longrightarrow> getCard cn' (updateLastSeen cn ls d) = getCard cn' d"
    by (simp add: getCard_updateLastSeen_other)
  ultimately show ?thesis by simp
qed

theorem updateLastSeen_frame_witness:
  "getCard ''5500000000000004'' [card_a, card_b] = Some card_b
   \<and> updateLastSeen ''5500000000000004'' (Some loc_paris) [card_a, card_b]
       = [card_a, card_b\<lparr>lastSeen := Some loc_paris\<rparr>]
   \<and> getCard ''4111111111111111'' (updateLastSeen ''5500000000000004'' (Some loc_paris) [card_a, card_b])
       = Some card_a"
proof -
  have h: "getCard ''5500000000000004'' [card_a, card_b] = Some card_b"
    by (simp add: getCard_def card_a_def card_b_def)
  from updateLastSeen_frame [OF h, of "Some loc_paris"]
  have "getCard ''4111111111111111'' (updateLastSeen ''5500000000000004'' (Some loc_paris) [card_a, card_b])
       = getCard ''4111111111111111'' [card_a, card_b]"
    by simp
  moreover have "updateLastSeen ''5500000000000004'' (Some loc_paris) [card_a, card_b]
       = [card_a, card_b\<lparr>lastSeen := Some loc_paris\<rparr>]"
    by (simp add: updateLastSeen_def saveCard_def getCard_def card_a_def card_b_def)
  ultimately show ?thesis using h
    by (simp add: getCard_def card_a_def)
qed

end
